theory Spec2Isabelle
  imports Main "HOL-Library.AList"
begin

section \<open>Values, dictionaries and strings\<close>

text \<open>
  The values that travel through \<^verbatim>\<open>server.py\<close> are parsed JSON. A property value is
  \<^verbatim>\<open>None\<close>, a bool, an int or a str; any other value (array, object) is kept as an
  opaque serialisation. Floating point values are left out of the model.
\<close>

datatype jvalue = JNull | JBool bool | JInt int | JStr string | JOther string

text \<open>
  A Python dict is an association list in insertion order; the first entry of a key is
  the live one (\<^const>\<open>map_of\<close> reads it, \<^const>\<open>AList.update\<close> writes it in place
  or appends a new key at the end, as \<^verbatim>\<open>d[k] = v\<close> does).
\<close>

type_synonym pydict = "(string \<times> jvalue) list"

text \<open>Python's \<^verbatim>\<open>==\<close> on these values: \<^verbatim>\<open>True == 1\<close> and \<^verbatim>\<open>False == 0\<close>.\<close>

fun py_eq :: "jvalue \<Rightarrow> jvalue \<Rightarrow> bool" where
  "py_eq (JBool b) (JInt i) = (i = (if b then 1 else 0))"
| "py_eq (JInt i) (JBool b) = (i = (if b then 1 else 0))"
| "py_eq a b = (a = b)"

text \<open>\<^verbatim>\<open>s.startswith(p)\<close>\<close>

fun startswith :: "string \<Rightarrow> string \<Rightarrow> bool" where
  "startswith s [] = True"
| "startswith [] (p # ps) = False"
| "startswith (c # cs) (p # ps) = (c = p \<and> startswith cs ps)"

text \<open>
  \<^verbatim>\<open>s.lstrip(chars)\<close>: Python removes every leading character that occurs in
  \<^verbatim>\<open>chars\<close>; the argument is a set of characters, not a prefix.
\<close>

definition lstrip :: "string \<Rightarrow> string \<Rightarrow> string" where
  "lstrip s chars = dropWhile (\<lambda>c. c \<in> set chars) s"

text \<open>
  \<^verbatim>\<open>str(v).startswith("attachment://")\<close>. Only a str can pass: \<^verbatim>\<open>str\<close> of
  \<^verbatim>\<open>None\<close>, of a bool, of an int, of a list or of a dict starts with another character.
  The result is the reference itself when the test holds.
\<close>

definition attachment_ref :: "jvalue \<Rightarrow> string option" where
  "attachment_ref v =
     (case v of
        JStr s \<Rightarrow> if startswith s ''attachment://'' then Some s else None
      | _ \<Rightarrow> None)"

text \<open>Truth value of \<^verbatim>\<open>upload_user_field_suffix\<close> (\<^verbatim>\<open>None\<close> and \<^verbatim>\<open>""\<close> are falsy).\<close>

definition suffix_set :: "string option \<Rightarrow> bool" where
  "suffix_set sfx = (case sfx of None \<Rightarrow> False | Some s \<Rightarrow> s \<noteq> [])"

text \<open>Insertion of a key into a dict whose values are determined by the key.\<close>

definition key_insert :: "string \<Rightarrow> string list \<Rightarrow> string list" where
  "key_insert n ns = (if n \<in> set ns then ns else ns @ [n])"

section \<open>The collaborators\<close>

record feature =
  f_id :: jvalue
  f_properties :: pydict

text \<open>
  The value of \<^verbatim>\<open>error_details\<close> in an answer of the Record Store, as far as the
  handlers tell values apart: a falsy value (replaced by \<^verbatim>\<open>{}\<close>), a non-empty mapping
  that can be passed on as keyword arguments (kept as its serialisation), or any other
  truthy value.
\<close>

datatype details = DFalsy | DKwargs string | DOther jvalue

text \<open>
  What the Record Store answers: a dict that may carry \<^verbatim>\<open>error\<close>,
  \<^verbatim>\<open>error_code\<close>, \<^verbatim>\<open>error_details\<close> and \<^verbatim>\<open>feature\<close>. It is falsy when
  it carries nothing.
\<close>

record result =
  r_error :: "string option"
  r_error_code :: "nat option"
  r_error_details :: "details option"
  r_feature :: "feature option"

definition falsy :: "result \<Rightarrow> bool" where
  "falsy r = (r_error r = None \<and> r_error_code r = None \<and> r_error_details r = None
              \<and> r_feature r = None)"

type_synonym filedata = string

text \<open>
  Every call to the Attachment Store and to the Record Store is an event; the events of
  a request, in order, are its history. The principal \<^verbatim>\<open>get_auth_user()\<close> is the same
  in every call of a request and is not repeated in the events.
\<close>

datatype event =
    EValidate string filedata
  | ESave string filedata "string option"
  | ERemove string string
  | EIsEditable string int
  | EShow string jvalue
  | ECreate string feature "string list"
  | EUpdate string jvalue feature "string list"
  | EDestroy string jvalue

text \<open>
  The collaborators are not part of \<^verbatim>\<open>server.py\<close>: their answers are parameters.
  Each answer may depend on everything that happened before in the request.
  \<^verbatim>\<open>aborter_mapping\<close> tells for which status codes the framework's \<^verbatim>\<open>abort\<close> has
  an exception; \<^verbatim>\<open>py_int\<close> is Python's \<^verbatim>\<open>int\<close> on a str.
\<close>

record env =
  auth_user :: jvalue
  aborter_mapping :: "nat \<Rightarrow> bool"
  validate_attachment :: "event list \<Rightarrow> string \<Rightarrow> filedata \<Rightarrow> bool"
  save_attachment :: "event list \<Rightarrow> string \<Rightarrow> filedata \<Rightarrow> string option"
  is_editable :: "event list \<Rightarrow> string \<Rightarrow> int \<Rightarrow> bool"
  ds_show :: "event list \<Rightarrow> string \<Rightarrow> jvalue \<Rightarrow> result"
  ds_create :: "event list \<Rightarrow> string \<Rightarrow> feature \<Rightarrow> string list \<Rightarrow> result"
  ds_update :: "event list \<Rightarrow> string \<Rightarrow> jvalue \<Rightarrow> feature \<Rightarrow> string list \<Rightarrow> result"
  ds_destroy :: "event list \<Rightarrow> string \<Rightarrow> jvalue \<Rightarrow> result"
  py_int :: "string \<Rightarrow> int option"

text \<open>
  How a handler ends when it does not return: \<^verbatim>\<open>Abort\<close> is the HTTP error raised by
  \<^verbatim>\<open>api.abort\<close>, with its status code and message; the others are Python exceptions
  that nothing in \<^verbatim>\<open>server.py\<close> catches.
\<close>

datatype exn =
  Abort nat string | KeyError | TypeError | AttributeError | IndexError | ValueError | LookupError

text \<open>
  \<^verbatim>\<open>api.abort(error_code, result['error'], **error_details)\<close> with
  \<^verbatim>\<open>error_code = result.get('error_code') or 404\<close> and
  \<^verbatim>\<open>error_details = result.get('error_details') or {}\<close>. Unpacking a value that is
  not a mapping raises \<^verbatim>\<open>TypeError\<close> before the call; \<^verbatim>\<open>abort\<close> raises
  \<^verbatim>\<open>LookupError\<close> for a status code it has no exception for.
\<close>

definition abort_result :: "env \<Rightarrow> result \<Rightarrow> string \<Rightarrow> exn" where
  "abort_result e res err =
     (let error_code = (case r_error_code res of None \<Rightarrow> 404 | Some c \<Rightarrow> if c = 0 then 404 else c)
      in (case r_error_details res of
            Some (DOther v) \<Rightarrow> TypeError
          | _ \<Rightarrow> if aborter_mapping e error_code then Abort error_code err else LookupError))"

section \<open>Relations.cleanup\_attachments and Relations.attachments\_diff\<close>

text \<open>
  \<^verbatim>\<open>for slug in slugs: attachments.remove_attachment(dataset, slug.lstrip("attachment://"))\<close>
\<close>

definition cleanup_attachments :: "string \<Rightarrow> string list \<Rightarrow> event list \<Rightarrow> event list" where
  "cleanup_attachments dataset slugs h =
     h @ map (\<lambda>slug. ERemove dataset (lstrip slug ''attachment://'')) slugs"

text \<open>
  The state of the loop of \<^verbatim>\<open>attachments_diff\<close>: the properties of \<^verbatim>\<open>feature\<close>
  and \<^verbatim>\<open>internal_fields\<close> (both mutated in place, so the caller sees them changed),
  \<^verbatim>\<open>newattachments\<close> and \<^verbatim>\<open>oldattachments\<close>.
\<close>

type_synonym diff_state = "pydict \<times> string list \<times> string list \<times> string list"

text \<open>One pass of the loop body, for \<^verbatim>\<open>key\<close>.\<close>

definition diff_key ::
  "jvalue \<Rightarrow> string option \<Rightarrow> pydict \<Rightarrow> bool \<Rightarrow> string \<Rightarrow> diff_state \<Rightarrow> exn + diff_state" where
  "diff_key user sfx prev_props record_deleted key st =
     (case st of (props, internal_fields, newattachments, oldattachments) \<Rightarrow>
        (case (case map_of prev_props key of
                 None \<Rightarrow> Inr False
               | Some pv \<Rightarrow>
                   (case map_of props key of
                      None \<Rightarrow> Inl KeyError
                    | Some fv \<Rightarrow> Inr (\<not> py_eq fv pv))) of
           Inl e \<Rightarrow> Inl e
         | Inr changed \<Rightarrow>
             if changed \<or> record_deleted then
               (case map_of prev_props key of
                  None \<Rightarrow> Inl KeyError
                | Some pv \<Rightarrow>
                    let (props1, internal1, old1) =
                          (case attachment_ref pv of
                             None \<Rightarrow> (props, internal_fields, oldattachments)
                           | Some r \<Rightarrow>
                               if suffix_set sfx then
                                 (AList.update (key @ ''__'' @ the sfx) user props,
                                  key_insert (key @ ''__'' @ the sfx) internal_fields,
                                  oldattachments @ [r])
                               else (props, internal_fields, oldattachments @ [r]))
                    in (case map_of props1 key of
                          None \<Rightarrow> Inl KeyError
                        | Some fv \<Rightarrow>
                            (case attachment_ref fv of
                               None \<Rightarrow> Inr (props1, internal1, newattachments, old1)
                             | Some r \<Rightarrow> Inr (props1, internal1, newattachments @ [r], old1))))
             else Inr st))"

fun diff_loop ::
  "jvalue \<Rightarrow> string option \<Rightarrow> pydict \<Rightarrow> bool \<Rightarrow> string list \<Rightarrow> diff_state \<Rightarrow> exn + diff_state" where
  "diff_loop user sfx prev_props record_deleted [] st = Inr st"
| "diff_loop user sfx prev_props record_deleted (key # keys) st =
     (case diff_key user sfx prev_props record_deleted key st of
        Inl e \<Rightarrow> Inl e
      | Inr st' \<Rightarrow> diff_loop user sfx prev_props record_deleted keys st')"

text \<open>
  \<^verbatim>\<open>attachments_diff\<close> returns \<^verbatim>\<open>(newattachments, oldattachments)\<close>; the model
  returns with them the feature and the internal fields as the loop left them.
\<close>

definition attachments_diff ::
  "env \<Rightarrow> string \<Rightarrow> jvalue \<Rightarrow> feature \<Rightarrow> string list \<Rightarrow> string option \<Rightarrow> bool \<Rightarrow> event list
   \<Rightarrow> (exn + (string list \<times> string list \<times> feature \<times> string list)) \<times> event list" where
  "attachments_diff e rel_table rel_record_id feat internal_fields sfx record_deleted h =
     (let prev = ds_show e h rel_table rel_record_id;
          h1 = h @ [EShow rel_table rel_record_id]
      in if falsy prev then (Inr ([], [], feat, internal_fields), h1)
         else (case r_feature prev of
                 None \<Rightarrow> (Inl KeyError, h1)
               | Some prev_feature \<Rightarrow>
                   (case diff_loop (auth_user e) sfx (f_properties prev_feature) record_deleted
                           (map fst (f_properties feat))
                           (f_properties feat, internal_fields, [], []) of
                      Inl x \<Rightarrow> (Inl x, h1)
                    | Inr (props, internal1, newattachments, oldattachments) \<Rightarrow>
                        (Inr (newattachments, oldattachments,
                              feat\<lparr>f_properties := props\<rparr>, internal1), h1))))"

section \<open>Saving uploaded files\<close>

text \<open>
  \<^verbatim>\<open>request.files\<close> is a list of pairs of a key and a file; iterating it yields each
  key once. The validation loop is the same in the three handlers.
\<close>

fun validate_attachments ::
  "env \<Rightarrow> string \<Rightarrow> (string \<times> filedata) list \<Rightarrow> event list \<Rightarrow> exn option \<times> event list" where
  "validate_attachments e dataset [] h = (None, h)"
| "validate_attachments e dataset ((key, filedata) # files) h =
     (if \<not> validate_attachment e h dataset filedata
      then (Some (Abort 404 (''Attachment validation failed: '' @ key)),
            h @ [EValidate dataset filedata])
      else validate_attachments e dataset files (h @ [EValidate dataset filedata]))"

text \<open>\<^verbatim>\<open>if not slug\<close>: \<^verbatim>\<open>None\<close> and the empty string are falsy.\<close>

definition no_slug :: "string option \<Rightarrow> bool" where
  "no_slug slug = (slug = None \<or> slug = Some [])"

text \<open>
  The save loop of \<^verbatim>\<open>CreateFeatureMultipart.post\<close> and of
  \<^verbatim>\<open>EditFeatureMultipart.put\<close> (the same text in both): \<^verbatim>\<open>saved_attachments\<close>,
  \<^verbatim>\<open>internal_fields\<close> and the properties of \<^verbatim>\<open>feature\<close> are the loop state.
\<close>

fun save_attachments_feature ::
  "env \<Rightarrow> string \<Rightarrow> string option \<Rightarrow> (string \<times> filedata) list
   \<Rightarrow> (string \<times> string) list \<Rightarrow> string list \<Rightarrow> feature \<Rightarrow> event list
   \<Rightarrow> (exn + ((string \<times> string) list \<times> string list \<times> feature)) \<times> event list" where
  "save_attachments_feature e dataset sfx [] saved internal_fields feat h =
     (Inr (saved, internal_fields, feat), h)"
| "save_attachments_feature e dataset sfx ((key, filedata) # files) saved internal_fields feat h =
     (let slug = save_attachment e h dataset filedata;
          h1 = h @ [ESave dataset filedata slug]
      in if no_slug slug
         then (Inl (Abort 404 (''Failed to save attachment: '' @ key)),
               h1 @ map (ERemove dataset) (map snd saved))
         else
           let field = lstrip key ''file:'';
               props1 = AList.update field (JStr (''attachment://'' @ the slug)) (f_properties feat);
               props2 = (if suffix_set sfx
                         then AList.update (field @ ''__'' @ the sfx) (auth_user e) props1
                         else props1);
               internal1 = (if suffix_set sfx
                            then key_insert (field @ ''__'' @ the sfx) internal_fields
                            else internal_fields)
           in save_attachments_feature e dataset sfx files
                (AList.update key (the slug) saved) internal1
                (feat\<lparr>f_properties := props2\<rparr>) h1)"

section \<open>CreateFeatureMultipart.post and EditFeatureMultipart.put\<close>

text \<open>
  \<^verbatim>\<open>dict(filter(lambda x: x[0] not in internal_fields, properties.items()))\<close>
\<close>

definition strip_internal :: "string list \<Rightarrow> feature \<Rightarrow> feature" where
  "strip_internal internal_fields feat =
     feat\<lparr>f_properties := filter (\<lambda>x. fst x \<notin> set internal_fields) (f_properties feat)\<rparr>"

text \<open>
  The end of both handlers: return the stored feature, or remove the saved files and
  abort.
\<close>

definition finish_feature ::
  "env \<Rightarrow> string \<Rightarrow> (string \<times> string) list \<Rightarrow> string list \<Rightarrow> result \<Rightarrow> event list
   \<Rightarrow> (exn + feature) \<times> event list" where
  "finish_feature e dataset saved internal_fields res h =
     (case r_error res of
        None \<Rightarrow>
          (case r_feature res of
             None \<Rightarrow> (Inl KeyError, h)
           | Some f \<Rightarrow> (Inr (strip_internal internal_fields f), h))
      | Some err \<Rightarrow>
          (Inl (abort_result e res err), h @ map (ERemove dataset) (map snd saved)))"

text \<open>
  The \<^verbatim>\<open>feature\<close> argument of both handlers is \<^verbatim>\<open>None\<close> when the form field does
  not parse to a JSON object.
\<close>

definition create_feature_multipart_post ::
  "env \<Rightarrow> string \<Rightarrow> string option \<Rightarrow> feature option \<Rightarrow> (string \<times> filedata) list \<Rightarrow> event list
   \<Rightarrow> (exn + feature) \<times> event list" where
  "create_feature_multipart_post e dataset sfx feature files h =
     (case feature of
        None \<Rightarrow> (Inl (Abort 400 ''feature is not an object''), h)
      | Some feat \<Rightarrow>
     (case validate_attachments e dataset files h of
        (Some x, h1) \<Rightarrow> (Inl x, h1)
      | (None, h1) \<Rightarrow>
          (case save_attachments_feature e dataset sfx files [] [] feat h1 of
             (Inl x, h2) \<Rightarrow> (Inl x, h2)
           | (Inr (saved, internal_fields, feat1), h2) \<Rightarrow>
               finish_feature e dataset saved internal_fields
                 (ds_create e h2 dataset feat1 internal_fields)
                 (h2 @ [ECreate dataset feat1 internal_fields]))))"

text \<open>Truth value of a property value.\<close>

fun truthy :: "jvalue \<Rightarrow> bool" where
  "truthy JNull = False"
| "truthy (JBool b) = b"
| "truthy (JInt i) = (i \<noteq> 0)"
| "truthy (JStr s) = (s \<noteq> [])"
| "truthy (JOther s) = True"

text \<open>
  The loop of \<^verbatim>\<open>EditFeatureMultipart.put\<close> over the keys of the incoming feature: the
  old attachment of a changed field is removed here, before the Record Store is called.
\<close>

fun put_replace_loop ::
  "env \<Rightarrow> string \<Rightarrow> string option \<Rightarrow> pydict \<Rightarrow> string list
   \<Rightarrow> pydict \<times> string list \<times> event list \<Rightarrow> exn + (pydict \<times> string list \<times> event list)" where
  "put_replace_loop e dataset sfx prev_props [] st = Inr st"
| "put_replace_loop e dataset sfx prev_props (key # keys) (props, internal_fields, h) =
     (case map_of prev_props key of
        None \<Rightarrow> put_replace_loop e dataset sfx prev_props keys (props, internal_fields, h)
      | Some pv \<Rightarrow>
          (case (if truthy pv then attachment_ref pv else None) of
             None \<Rightarrow> put_replace_loop e dataset sfx prev_props keys (props, internal_fields, h)
           | Some r \<Rightarrow>
               (case map_of props key of
                  None \<Rightarrow> Inl KeyError
                | Some fv \<Rightarrow>
                    if py_eq fv pv
                    then put_replace_loop e dataset sfx prev_props keys (props, internal_fields, h)
                    else
                      let h1 = h @ [ERemove dataset (lstrip r ''attachment://'')]
                      in if suffix_set sfx
                         then put_replace_loop e dataset sfx prev_props keys
                                (AList.update (key @ ''__'' @ the sfx) (auth_user e) props,
                                 key_insert (key @ ''__'' @ the sfx) internal_fields, h1)
                         else put_replace_loop e dataset sfx prev_props keys
                                (props, internal_fields, h1))))"

definition edit_feature_multipart_put ::
  "env \<Rightarrow> string \<Rightarrow> int \<Rightarrow> string option \<Rightarrow> feature option \<Rightarrow> (string \<times> filedata) list
   \<Rightarrow> event list \<Rightarrow> (exn + feature) \<times> event list" where
  "edit_feature_multipart_put e dataset ident sfx feature files h =
     (case feature of
        None \<Rightarrow> (Inl (Abort 400 ''feature is not an object''), h)
      | Some feat \<Rightarrow>
     (case validate_attachments e dataset files h of
        (Some x, h1) \<Rightarrow> (Inl x, h1)
      | (None, h1) \<Rightarrow>
          (case save_attachments_feature e dataset sfx files [] [] feat h1 of
             (Inl x, h2) \<Rightarrow> (Inl x, h2)
           | (Inr (saved, internal_fields, feat1), h2) \<Rightarrow>
               let prev = ds_show e h2 dataset (JInt ident);
                   h3 = h2 @ [EShow dataset (JInt ident)]
               in (case (if falsy prev then Inr (f_properties feat1, internal_fields, h3)
                         else (case r_feature prev of
                                 None \<Rightarrow> Inl KeyError
                               | Some prev_feature \<Rightarrow>
                                   put_replace_loop e dataset sfx (f_properties prev_feature)
                                     (map fst (f_properties feat1))
                                     (f_properties feat1, internal_fields, h3))) of
                     Inl x \<Rightarrow> (Inl x, h3)
                   | Inr (props, internal1, h4) \<Rightarrow>
                       finish_feature e dataset saved internal1
                         (ds_update e h4 dataset (JInt ident) (feat1\<lparr>f_properties := props\<rparr>) internal1)
                         (h4 @ [EUpdate dataset (JInt ident) (feat1\<lparr>f_properties := props\<rparr>) internal1])))))"

section \<open>Relations.post\<close>

text \<open>
  The payload maps a table name to \<^verbatim>\<open>{"fk": ..., "records": [...]}\<close>; both keys may
  be missing.
\<close>

record rel_data =
  rd_fk :: "string option"
  rd_records :: "pydict list option"

type_synonym payload = "(string \<times> rel_data) list"

text \<open>\<^verbatim>\<open>s.split("__")\<close>, the first argument being the piece read so far, reversed.\<close>

fun split_uu :: "string \<Rightarrow> string \<Rightarrow> string list" where
  "split_uu acc [] = [rev acc]"
| "split_uu acc [c] = [rev (c # acc)]"
| "split_uu acc (c # d # cs) =
     (if c = CHR ''_'' \<and> d = CHR ''_'' then rev acc # split_uu [] cs
      else split_uu (c # acc) (d # cs))"

text \<open>
  The binding of a saved file into the payload:
  \<^verbatim>\<open>payload[table]["records"][int(index)][table + "__" + field] = "attachment://" + slug\<close>,
  then the upload user field. A negative index counts from the end of the list.
\<close>

definition bind_attachment ::
  "env \<Rightarrow> string option \<Rightarrow> string \<Rightarrow> string \<Rightarrow> payload \<Rightarrow> string list
   \<Rightarrow> exn + (payload \<times> string list)" where
  "bind_attachment e sfx key slug pl internal_fields =
     (let parts = split_uu [] (lstrip key ''file:'')
      in if length parts < 3 then Inl IndexError
         else
           let table = parts ! 0; field = parts ! 1; index = parts ! 2
           in (case map_of pl table of
                 None \<Rightarrow> Inl KeyError
               | Some rd \<Rightarrow>
                   (case rd_records rd of
                      None \<Rightarrow> Inl KeyError
                    | Some recs \<Rightarrow>
                        (case py_int e index of
                           None \<Rightarrow> Inl ValueError
                         | Some i \<Rightarrow>
                             let n = int (length recs);
                                 j = (if i < 0 then n + i else i)
                             in if 0 \<le> j \<and> j < n then
                                  let r1 = AList.update (table @ ''__'' @ field)
                                             (JStr (''attachment://'' @ slug)) (recs ! nat j);
                                      r2 = (if suffix_set sfx
                                            then AList.update (table @ ''__'' @ field @ ''__'' @ the sfx)
                                                   (auth_user e) r1
                                            else r1);
                                      internal1 = (if suffix_set sfx
                                                   then internal_fields @ [table @ ''__'' @ field @ ''__'' @ the sfx]
                                                   else internal_fields)
                                  in Inr (AList.update table
                                            (rd\<lparr>rd_records := Some (recs[nat j := r2])\<rparr>) pl,
                                          internal1)
                                else Inl IndexError))))"

fun save_attachments_relations ::
  "env \<Rightarrow> string \<Rightarrow> string option \<Rightarrow> (string \<times> filedata) list
   \<Rightarrow> (string \<times> string) list \<Rightarrow> string list \<Rightarrow> payload \<Rightarrow> event list
   \<Rightarrow> (exn + (string list \<times> payload)) \<times> event list" where
  "save_attachments_relations e dataset sfx [] saved internal_fields pl h =
     (Inr (internal_fields, pl), h)"
| "save_attachments_relations e dataset sfx ((key, filedata) # files) saved internal_fields pl h =
     (let slug = save_attachment e h dataset filedata;
          h1 = h @ [ESave dataset filedata slug]
      in if no_slug slug
         then (Inl (Abort 404 (''Failed to save attachment: '' @ key)),
               h1 @ map (ERemove dataset) (map snd saved))
         else (case bind_attachment e sfx key (the slug) pl internal_fields of
                 Inl x \<Rightarrow> (Inl x, h1)
               | Inr (pl1, internal1) \<Rightarrow>
                   save_attachments_relations e dataset sfx files
                     (AList.update key (the slug) saved) internal1 pl1 h1))"

text \<open>
  The two dict comprehensions over a record: the properties without the table prefix,
  and the internal fields of the table. Taking the prefix away maps different keys to
  different keys, so the first is a map over the filtered entries.
\<close>

definition rel_properties :: "string \<Rightarrow> pydict \<Rightarrow> pydict" where
  "rel_properties tbl_prefix rel_record =
     map (\<lambda>(k, v). (drop (length tbl_prefix) k, v))
       (filter (\<lambda>(k, v). startswith k tbl_prefix) rel_record)"

definition table_internal_fields :: "string \<Rightarrow> string list \<Rightarrow> string list" where
  "table_internal_fields tbl_prefix internal_fields =
     fold key_insert
       (map (drop (length tbl_prefix)) (filter (\<lambda>n. startswith n tbl_prefix) internal_fields)) []"

text \<open>\<^verbatim>\<open>result.get('error_details') or {}\<close>, as a value of the record.\<close>

definition details_or_empty :: "result \<Rightarrow> jvalue" where
  "details_or_empty res =
     (case r_error_details res of
        Some (DKwargs d) \<Rightarrow> JOther d
      | Some (DOther v) \<Rightarrow> v
      | _ \<Rightarrow> JOther ''{}'')"

text \<open>
  What happens to \<^verbatim>\<open>result\<close>: the record is appended with its error, or replaced by
  the stored feature (prefixed again, internal fields left out), or not appended at all.
  The pair is the list of records appended and whether \<^verbatim>\<open>haserrors\<close> was set.
\<close>

definition rel_result :: "string \<Rightarrow> string list \<Rightarrow> pydict \<Rightarrow> result \<Rightarrow> pydict list \<times> bool" where
  "rel_result rel_table tif rel_record res =
     (case r_error res of
        Some err \<Rightarrow>
          ([AList.update ''error_details'' (details_or_empty res)
              (AList.update ''error'' (JStr err) rel_record)], True)
      | None \<Rightarrow>
          (case r_feature res of
             Some f \<Rightarrow>
               ([AList.update ''id'' (f_id f)
                   (map (\<lambda>(k, v). (rel_table @ ''__'' @ k, v))
                      (filter (\<lambda>(k, v). k \<notin> set tif) (f_properties f)))], False)
           | None \<Rightarrow> ([], False)))"

text \<open>The body of the loop over the records of one table.\<close>

definition rel_record_step ::
  "env \<Rightarrow> string \<Rightarrow> int \<Rightarrow> string option \<Rightarrow> string list \<Rightarrow> string \<Rightarrow> string option
   \<Rightarrow> pydict \<Rightarrow> event list \<Rightarrow> (exn + (pydict list \<times> bool)) \<times> event list" where
  "rel_record_step e dataset ident sfx internal_fields rel_table fk_field rel_record0 h =
     (let tbl_prefix = rel_table @ ''__'';
          is_new = py_eq (case map_of rel_record0 ''__status__'' of None \<Rightarrow> JStr [] | Some s \<Rightarrow> s)
                     (JStr ''new'')
      in (case fk_field of
            None \<Rightarrow> (Inl TypeError, h)
          | Some fk \<Rightarrow>
              let rel_record = (if is_new then AList.update (tbl_prefix @ fk) (JInt ident) rel_record0
                                else rel_record0)
              in if \<not> py_eq (case map_of rel_record (tbl_prefix @ fk) of None \<Rightarrow> JNull | Some v \<Rightarrow> v)
                         (JInt ident)
                 then (Inr ([AList.update ''__error__'' (JStr ''FK validation failed'') rel_record],
                            True), h)
                 else
                   let entry = \<lparr>f_id = (case map_of rel_record ''id'' of None \<Rightarrow> JNull | Some v \<Rightarrow> v),
                                f_properties = rel_properties tbl_prefix rel_record\<rparr>;
                       tif = table_internal_fields tbl_prefix internal_fields
                   in (case map_of rel_record ''__status__'' of
                         None \<Rightarrow> (Inr ([rel_record], False), h)
                       | Some status \<Rightarrow>
                           if py_eq status (JStr ''new'') then
                             (Inr (rel_result rel_table tif rel_record
                                     (ds_create e h rel_table entry tif)),
                              h @ [ECreate rel_table entry tif])
                           else if py_eq status (JStr ''changed'') then
                             (case map_of rel_record ''id'' of
                                None \<Rightarrow> (Inl KeyError, h)
                              | Some rid \<Rightarrow>
                                  (case attachments_diff e rel_table rid entry tif sfx False h of
                                     (Inl x, h1) \<Rightarrow> (Inl x, h1)
                                   | (Inr (newattachments, oldattachments, entry1, tif1), h1) \<Rightarrow>
                                       let res = ds_update e h1 rel_table rid entry1 tif1;
                                           h2 = h1 @ [EUpdate rel_table rid entry1 tif1]
                                       in (Inr (rel_result rel_table tif1 rel_record res),
                                           cleanup_attachments dataset
                                             (if r_error res \<noteq> None then newattachments
                                              else oldattachments) h2)))
                           else
                             (case status of
                                JStr s \<Rightarrow>
                                  if startswith s ''deleted'' then
                                    (case map_of rel_record ''id'' of
                                       None \<Rightarrow> (Inl KeyError, h)
                                     | Some rid \<Rightarrow>
                                         (case attachments_diff e rel_table rid entry tif sfx True h of
                                            (Inl x, h1) \<Rightarrow> (Inl x, h1)
                                          | (Inr (newattachments, oldattachments, entry1, tif1), h1) \<Rightarrow>
                                              let h2 = (if suffix_set sfx
                                                        then h1 @ [EUpdate rel_table rid entry1 tif1]
                                                        else h1);
                                                  res = ds_destroy e h2 rel_table rid;
                                                  h3 = h2 @ [EDestroy rel_table rid]
                                              in (Inr (rel_result rel_table tif1 rel_record res),
                                                  cleanup_attachments dataset
                                                    (if r_error res \<noteq> None then newattachments
                                                     else oldattachments) h3)))
                                  else (Inr ([], False), h)
                              | _ \<Rightarrow> (Inl AttributeError, h)))))"

fun rel_records_loop ::
  "env \<Rightarrow> string \<Rightarrow> int \<Rightarrow> string option \<Rightarrow> string list \<Rightarrow> string \<Rightarrow> string option
   \<Rightarrow> pydict list \<Rightarrow> pydict list \<times> bool \<Rightarrow> event list
   \<Rightarrow> (exn + (pydict list \<times> bool)) \<times> event list" where
  "rel_records_loop e dataset ident sfx internal_fields rel_table fk_field [] acc h = (Inr acc, h)"
| "rel_records_loop e dataset ident sfx internal_fields rel_table fk_field (r # rs) (records, haserrors) h =
     (case rel_record_step e dataset ident sfx internal_fields rel_table fk_field r h of
        (Inl x, h1) \<Rightarrow> (Inl x, h1)
      | (Inr (appended, err), h1) \<Rightarrow>
          rel_records_loop e dataset ident sfx internal_fields rel_table fk_field rs
            (records @ appended, haserrors \<or> err) h1)"

text \<open>
  The loop over the tables of the payload. \<^verbatim>\<open>ret\<close> maps the table to its foreign key
  field and its records.
\<close>

type_synonym relationvalues = "(string \<times> string option \<times> pydict list) list"

fun rel_tables_loop ::
  "env \<Rightarrow> string \<Rightarrow> int \<Rightarrow> string option \<Rightarrow> string list \<Rightarrow> payload
   \<Rightarrow> relationvalues \<times> bool \<Rightarrow> event list \<Rightarrow> (exn + (relationvalues \<times> bool)) \<times> event list" where
  "rel_tables_loop e dataset ident sfx internal_fields [] acc h = (Inr acc, h)"
| "rel_tables_loop e dataset ident sfx internal_fields ((rel_table, rel_data) # rest) (ret, haserrors) h =
     (case rel_records_loop e dataset ident sfx internal_fields rel_table (rd_fk rel_data)
             (case rd_records rel_data of None \<Rightarrow> [] | Some rs \<Rightarrow> rs) ([], haserrors) h of
        (Inl x, h1) \<Rightarrow> (Inl x, h1)
      | (Inr (records, haserrors1), h1) \<Rightarrow>
          rel_tables_loop e dataset ident sfx internal_fields rest
            (AList.update rel_table (rd_fk rel_data, records) ret, haserrors1) h1)"

text \<open>
  The handler. Its \<^verbatim>\<open>values\<close> argument is \<^verbatim>\<open>None\<close> when the form field does not
  parse to a JSON object. It returns
  \<^verbatim>\<open>{"relationvalues": ret, "success": not haserrors}\<close>.
\<close>

definition relations_post ::
  "env \<Rightarrow> string \<Rightarrow> int \<Rightarrow> string option \<Rightarrow> payload option \<Rightarrow> (string \<times> filedata) list
   \<Rightarrow> event list \<Rightarrow> (exn + (relationvalues \<times> bool)) \<times> event list" where
  "relations_post e dataset ident sfx values files h =
     (case values of
        None \<Rightarrow> (Inl (Abort 400 ''JSON is not an object''), h)
      | Some pl \<Rightarrow>
     (if \<not> is_editable e h dataset ident
      then (Inl (Abort 404 ''Dataset or feature not found or permission error''),
            h @ [EIsEditable dataset ident])
      else
        (case validate_attachments e dataset files (h @ [EIsEditable dataset ident]) of
           (Some x, h1) \<Rightarrow> (Inl x, h1)
         | (None, h1) \<Rightarrow>
             (case save_attachments_relations e dataset sfx files [] [] pl h1 of
                (Inl x, h2) \<Rightarrow> (Inl x, h2)
              | (Inr (internal_fields, pl1), h2) \<Rightarrow>
                  (case rel_tables_loop e dataset ident sfx internal_fields pl1 ([], False) h2 of
                     (Inl x, h3) \<Rightarrow> (Inl x, h3)
                   | (Inr (ret, haserrors), h3) \<Rightarrow> (Inr (ret, \<not> haserrors), h3))))))"

section \<open>Concrete collaborators for the scenarios\<close>

text \<open>
  A Record Store whose answers are fixed, and an Attachment Store that accepts every
  file, names a file by its content and cannot save an empty file. The framework has an
  exception for the client and server errors 400 to 505.
\<close>

definition no_result :: result where
  "no_result = \<lparr>r_error = None, r_error_code = None, r_error_details = None, r_feature = None\<rparr>"

definition stored :: "feature \<Rightarrow> result" where
  "stored f = no_result\<lparr>r_feature := Some f\<rparr>"

definition failed :: "string \<Rightarrow> result" where
  "failed msg = no_result\<lparr>r_error := Some msg\<rparr>"

definition scenario_env :: "result \<Rightarrow> result \<Rightarrow> result \<Rightarrow> result \<Rightarrow> env" where
  "scenario_env shown created updated destroyed =
     \<lparr>auth_user = JStr ''bob'',
      aborter_mapping = (\<lambda>c. 400 \<le> c \<and> c \<le> 505),
      validate_attachment = (\<lambda>h d f. True),
      save_attachment = (\<lambda>h d f. if f = [] then None else Some f),
      is_editable = (\<lambda>h d i. True),
      ds_show = (\<lambda>h t i. shown),
      ds_create = (\<lambda>h t f n. created),
      ds_update = (\<lambda>h t i f n. updated),
      ds_destroy = (\<lambda>h t i. destroyed),
      py_int = (\<lambda>s. if s = ''0'' then Some 0 else if s = ''1'' then Some 1 else None)\<rparr>"

section \<open>The slug handed to the Attachment Store\<close>

text \<open>
  C8. The reference \<^verbatim>\<open>attachment://abc\<close> is cleaned up by a call of
  \<^verbatim>\<open>remove_attachment\<close> with the slug \<^verbatim>\<open>bc\<close>, not \<^verbatim>\<open>abc\<close>:
  \<^verbatim>\<open>lstrip("attachment://")\<close> goes on removing the leading characters of the slug that
  occur in the prefix.
\<close>

theorem cleanup_attachments_alters_slug:
  "cleanup_attachments ''ds'' [''attachment://abc''] [] = [ERemove ''ds'' ''bc'']"
  by (simp add: cleanup_attachments_def lstrip_def)

text \<open>
  C4. A changed record: the file \<^verbatim>\<open>new1\<close> is uploaded for \<^verbatim>\<open>children__photo\<close>,
  which the stored record has as \<^verbatim>\<open>attachment://old1\<close>, and the update fails. The
  record is echoed with the error and \<^verbatim>\<open>success\<close> is false, the new side of the diff is
  the one cleaned up, but the slug asked to be removed is \<^verbatim>\<open>w1\<close>: the file
  \<^verbatim>\<open>new1\<close> stays.
\<close>

theorem relations_changed_failure_removes_mangled_slug:
  "relations_post
     (scenario_env
        (stored \<lparr>f_id = JInt 3, f_properties = [(''parent_id'', JInt 7), (''photo'', JStr ''attachment://old1'')]\<rparr>)
        no_result (failed ''invalid'') no_result)
     ''parents'' 7 None
     (Some [(''children'', \<lparr>rd_fk = Some ''parent_id'', rd_records = Some
         [[(''id'', JInt 3), (''__status__'', JStr ''changed''), (''children__parent_id'', JInt 7),
           (''children__photo'', JStr ''attachment://old1'')]]\<rparr>)])
     [(''file:children__photo__0'', ''new1'')] []
   = (Inr ([(''children'', Some ''parent_id'',
             [[(''id'', JInt 3), (''__status__'', JStr ''changed''), (''children__parent_id'', JInt 7),
               (''children__photo'', JStr ''attachment://new1''), (''error'', JStr ''invalid''),
               (''error_details'', JOther ''{}'')]])], False),
      [EIsEditable ''parents'' 7, EValidate ''parents'' ''new1'',
       ESave ''parents'' ''new1'' (Some ''new1''), EShow ''children'' (JInt 3),
       EUpdate ''children'' (JInt 3)
         \<lparr>f_id = JInt 3, f_properties = [(''parent_id'', JInt 7), (''photo'', JStr ''attachment://new1'')]\<rparr> [],
       ERemove ''parents'' ''w1''])"
  by (simp add: Let_def relations_post_def rel_record_step_def scenario_env_def no_result_def stored_def
        failed_def attachments_diff_def diff_key_def rel_properties_def table_internal_fields_def
        rel_result_def details_or_empty_def cleanup_attachments_def lstrip_def suffix_set_def
        falsy_def attachment_ref_def no_slug_def bind_attachment_def)

section \<open>The single-record update\<close>

text \<open>
  C1. The stored record has \<^verbatim>\<open>photo = attachment://old1\<close>; the request uploads a new
  photo and the Record Store refuses the update. The old file is removed before the
  update is tried, so after the failed request the file of \<^verbatim>\<open>old1\<close>, which the
  stored record still names, is gone. (The new file is removed, as it should be.)
\<close>

theorem edit_put_removes_old_file_before_failed_update:
  "edit_feature_multipart_put
     (scenario_env
        (stored \<lparr>f_id = JInt 5, f_properties = [(''photo'', JStr ''attachment://old1'')]\<rparr>)
        no_result (failed ''invalid'') no_result)
     ''ds'' 5 None (Some \<lparr>f_id = JInt 5, f_properties = [(''name'', JStr ''a'')]\<rparr>)
     [(''file:photo'', ''new1'')] []
   = (Inl (Abort 404 ''invalid''),
      [EValidate ''ds'' ''new1'', ESave ''ds'' ''new1'' (Some ''new1''),
       EShow ''ds'' (JInt 5), ERemove ''ds'' ''old1'',
       EUpdate ''ds'' (JInt 5)
         \<lparr>f_id = JInt 5, f_properties = [(''name'', JStr ''a''), (''photo'', JStr ''attachment://new1'')]\<rparr> [],
       ERemove ''ds'' ''new1''])"
  by (simp add: Let_def edit_feature_multipart_put_def scenario_env_def no_result_def stored_def
        failed_def no_slug_def lstrip_def suffix_set_def falsy_def attachment_ref_def
        finish_feature_def abort_result_def)

section \<open>The diff of a deleted record\<close>

text \<open>
  C10. A record to delete whose payload carries the property \<^verbatim>\<open>extra\<close>, which the
  stored record does not have: \<^verbatim>\<open>attachments_diff\<close> with \<^verbatim>\<open>record_deleted\<close> reads
  \<^verbatim>\<open>prev_feature["properties"]["extra"]\<close> and raises \<^verbatim>\<open>KeyError\<close>; no pair of lists
  is returned.
\<close>

theorem attachments_diff_deleted_unknown_key_raises:
  "attachments_diff
     (scenario_env
        (stored \<lparr>f_id = JInt 5, f_properties = [(''photo'', JStr ''attachment://x1'')]\<rparr>)
        no_result no_result no_result)
     ''children'' (JInt 5)
     \<lparr>f_id = JInt 5, f_properties = [(''photo'', JStr ''attachment://x1''), (''extra'', JInt 1)]\<rparr>
     [] None True []
   = (Inl KeyError, [EShow ''children'' (JInt 5)])"
  by (simp add: Let_def attachments_diff_def scenario_env_def no_result_def stored_def falsy_def
        diff_key_def attachment_ref_def suffix_set_def)

section \<open>What the diff collects\<close>

text \<open>Facts about dictionaries and about one pass of the loop.\<close>

lemma py_eq_refl: "py_eq v v"
  by (cases v) simp_all

lemma map_of_update_other:
  "g \<noteq> k \<Longrightarrow> map_of (AList.update k v al) g = map_of al g"
  by (simp add: update_conv')

lemma keys_update: "fst ` set al \<subseteq> fst ` set (AList.update k v al)"
  by (induction al) auto

lemma diff_loop_identical:
  "\<forall>k \<in> set keys. map_of props k = map_of prev k \<or> map_of prev k = None \<Longrightarrow>
   diff_loop u sfx prev False keys (props, i, n, ol) = Inr (props, i, n, ol)"
  by (induction keys) (auto simp: diff_key_def py_eq_refl split: option.splits)

lemma diff_key_total:
  "map_of props key = Some fv \<Longrightarrow>
   \<exists>st1. diff_key u sfx prev False key (props, i, n, ol) = Inr st1"
  by (simp add: diff_key_def map_of_update_other split: option.splits prod.splits)

lemma diff_key_mono:
  "diff_key u sfx prev rd key (props, i, n, ol) = Inr (props1, i1, n1, o1) \<Longrightarrow>
   set n \<subseteq> set n1 \<and> set ol \<subseteq> set o1 \<and> fst ` set props \<subseteq> fst ` set props1"
  using keys_update[of props "key @ ''__'' @ the sfx" u]
  by (auto simp: diff_key_def split: option.splits if_splits)

lemma diff_key_same:
  "diff_key u sfx prev rd key (props, i, n, ol) = Inr (props1, i1, n1, o1) \<Longrightarrow>
   suffix_set sfx \<longrightarrow> g \<noteq> key @ ''__'' @ the sfx \<Longrightarrow>
   map_of props1 g = map_of props g"
  by (auto simp: diff_key_def map_of_update_other split: option.splits if_splits)

lemma diff_key_hit:
  "diff_key u sfx prev False key (props, i, n, ol) = Inr (props1, i1, n1, o1) \<Longrightarrow>
   map_of props key = Some (JStr b) \<Longrightarrow> map_of prev key = Some (JStr a) \<Longrightarrow> a \<noteq> b \<Longrightarrow>
   startswith a ''attachment://'' \<Longrightarrow> startswith b ''attachment://'' \<Longrightarrow>
   a \<in> set o1 \<and> b \<in> set n1"
  by (auto simp: diff_key_def attachment_ref_def map_of_update_other split: if_splits)


lemma diff_loop_total:
  "set keys \<subseteq> fst ` set props \<Longrightarrow>
   \<exists>st'. diff_loop u sfx prev False keys (props, i, n, ol) = Inr st'"
proof (induction keys arbitrary: props i n ol)
  case Nil
  show ?case by simp
next
  case (Cons key keys)
  have "key \<in> fst ` set props" using Cons.prems by simp
  then obtain fv where fv: "map_of props key = Some fv"
    by (cases "map_of props key") (simp_all add: map_of_eq_None_iff)
  from diff_key_total[OF fv] obtain st1 where
    st1: "diff_key u sfx prev False key (props, i, n, ol) = Inr st1" by blast
  obtain props1 i1 n1 o1 where eq: "st1 = (props1, i1, n1, o1)"
    by (cases st1) auto
  have "fst ` set props \<subseteq> fst ` set props1"
    using diff_key_mono[OF st1[unfolded eq]] by simp
  then have "set keys \<subseteq> fst ` set props1" using Cons.prems by auto
  from Cons.IH[OF this] show ?case using st1 eq by simp
qed

lemma diff_loop_hit:
  assumes "diff_loop u sfx prev False keys (props, i, n, ol) = Inr (props', i', n', o')"
      and "suffix_set sfx \<longrightarrow> (\<forall>k\<in>set keys. k @ ''__'' @ the sfx \<noteq> f)"
      and "map_of props f = Some (JStr b)"
      and "map_of prev f = Some (JStr a)" and "a \<noteq> b"
      and "startswith a ''attachment://''" and "startswith b ''attachment://''"
  shows "set n \<subseteq> set n' \<and> set ol \<subseteq> set o' \<and> (f \<in> set keys \<longrightarrow> a \<in> set o' \<and> b \<in> set n')"
  using assms(1,2,3)
proof (induction keys arbitrary: props i n ol)
  case Nil
  then show ?case by simp
next
  case (Cons key keys)
  from Cons.prems(1) obtain st1 where
    st1: "diff_key u sfx prev False key (props, i, n, ol) = Inr st1"
    and rest0: "diff_loop u sfx prev False keys st1 = Inr (props', i', n', o')"
    by (auto split: sum.splits)
  obtain props1 i1 n1 o1 where eq: "st1 = (props1, i1, n1, o1)"
    by (cases st1) auto
  note step = st1[unfolded eq]
  note rest = rest0[unfolded eq]
  have nf: "suffix_set sfx \<longrightarrow> f \<noteq> key @ ''__'' @ the sfx"
    using Cons.prems(2) by auto
  have f1: "map_of props1 f = Some (JStr b)"
    using diff_key_same[OF step nf] Cons.prems(3) by simp
  have a1: "suffix_set sfx \<longrightarrow> (\<forall>k\<in>set keys. k @ ''__'' @ the sfx \<noteq> f)"
    using Cons.prems(2) by simp
  have ih: "set n1 \<subseteq> set n' \<and> set o1 \<subseteq> set o' \<and> (f \<in> set keys \<longrightarrow> a \<in> set o' \<and> b \<in> set n')"
    using Cons.IH[OF rest a1 f1] .
  have mono: "set n \<subseteq> set n1 \<and> set ol \<subseteq> set o1"
    using diff_key_mono[OF step] by simp
  have here: "key = f \<longrightarrow> a \<in> set o1 \<and> b \<in> set n1"
  proof
    assume kf: "key = f"
    show "a \<in> set o1 \<and> b \<in> set n1"
      using diff_key_hit[OF step] Cons.prems(3) assms(4-7) kf by simp
  qed
  show ?case using ih mono here by auto
qed



lemma not_falsy_feature: "r_feature res = Some pf \<Longrightarrow> \<not> falsy res"
  by (simp add: falsy_def)

text \<open>
  C9, as the code has it. When the stored record exists: diffing it against an incoming
  record with the same properties yields two empty lists and changes nothing; and when
  the field \<open>f\<close> holds the reference \<open>a\<close> in the stored record and another
  reference \<open>b\<close> in the incoming one, \<open>a\<close> is among the old references and
  \<open>b\<close> among the new ones, provided that \<open>f\<close> is not itself the upload user
  field (\<^verbatim>\<open>key + "__" + upload_user_field_suffix\<close>) of a key of the incoming record.
\<close>

theorem attachments_diff_identical_and_replaced:
  assumes "r_feature (ds_show e h rel_table rid) = Some pf"
  shows "(f_properties feat = f_properties pf \<longrightarrow>
            attachments_diff e rel_table rid feat internal_fields sfx False h
              = (Inr ([], [], feat, internal_fields), h @ [EShow rel_table rid]))
       \<and> (map_of (f_properties pf) f = Some (JStr a) \<and> map_of (f_properties feat) f = Some (JStr b)
            \<and> a \<noteq> b \<and> startswith a ''attachment://'' \<and> startswith b ''attachment://''
            \<and> (suffix_set sfx \<longrightarrow> (\<forall>k \<in> fst ` set (f_properties feat). k @ ''__'' @ the sfx \<noteq> f))
          \<longrightarrow> (\<exists>newattachments oldattachments feat1 internal1.
                 attachments_diff e rel_table rid feat internal_fields sfx False h
                   = (Inr (newattachments, oldattachments, feat1, internal1), h @ [EShow rel_table rid])
                 \<and> a \<in> set oldattachments \<and> b \<in> set newattachments))"
proof (intro conjI impI)
  assume same: "f_properties feat = f_properties pf"
  have "diff_loop (auth_user e) sfx (f_properties pf) False (map fst (f_properties feat))
          (f_properties feat, internal_fields, [], [])
        = Inr (f_properties feat, internal_fields, [], [])"
    by (rule diff_loop_identical) (simp add: same)
  then show "attachments_diff e rel_table rid feat internal_fields sfx False h
              = (Inr ([], [], feat, internal_fields), h @ [EShow rel_table rid])"
    using assms by (simp add: attachments_diff_def not_falsy_feature)
next
  assume hyp: "map_of (f_properties pf) f = Some (JStr a) \<and> map_of (f_properties feat) f = Some (JStr b)
            \<and> a \<noteq> b \<and> startswith a ''attachment://'' \<and> startswith b ''attachment://''
            \<and> (suffix_set sfx \<longrightarrow> (\<forall>k \<in> fst ` set (f_properties feat). k @ ''__'' @ the sfx \<noteq> f))"
  have "set (map fst (f_properties feat)) \<subseteq> fst ` set (f_properties feat)" by simp
  from diff_loop_total[OF this] obtain st' where
    run0: "diff_loop (auth_user e) sfx (f_properties pf) False (map fst (f_properties feat))
             (f_properties feat, internal_fields, [], []) = Inr st'"
    by blast
  obtain props' i' n' o' where eq: "st' = (props', i', n', o')" by (cases st') auto
  note run = run0[unfolded eq]
  have aud: "suffix_set sfx \<longrightarrow> (\<forall>k\<in>set (map fst (f_properties feat)). k @ ''__'' @ the sfx \<noteq> f)"
    using hyp by simp
  have fin: "f \<in> set (map fst (f_properties feat))"
    using hyp by (metis map_of_eq_None_iff option.distinct(1) set_map)
  have "a \<in> set o' \<and> b \<in> set n'"
    using diff_loop_hit[OF run aud, of b a] hyp fin by blast
  moreover have "attachments_diff e rel_table rid feat internal_fields sfx False h
                 = (Inr (n', o', feat\<lparr>f_properties := props'\<rparr>, i'), h @ [EShow rel_table rid])"
    using assms run by (simp add: attachments_diff_def not_falsy_feature)
  ultimately show "\<exists>newattachments oldattachments feat1 internal1.
                 attachments_diff e rel_table rid feat internal_fields sfx False h
                   = (Inr (newattachments, oldattachments, feat1, internal1), h @ [EShow rel_table rid])
                 \<and> a \<in> set oldattachments \<and> b \<in> set newattachments"
    by blast
qed


text \<open>
  The second half of C9 fails for a field that is the upload user field of another one.
  With the suffix \<^verbatim>\<open>by\<close>, the change of \<^verbatim>\<open>photo\<close> overwrites
  \<^verbatim>\<open>photo__by\<close> with the user before the loop reaches that key, so the reference
  \<^verbatim>\<open>attachment://B\<close> that replaced \<^verbatim>\<open>attachment://A\<close> there is not among
  the new references.
\<close>

theorem attachments_diff_replaced_audit_field_counterexample:
  "attachments_diff
     (scenario_env
        (stored \<lparr>f_id = JInt 3, f_properties =
           [(''photo'', JStr ''attachment://a''), (''photo__by'', JStr ''attachment://A'')]\<rparr>)
        no_result no_result no_result)
     ''children'' (JInt 3)
     \<lparr>f_id = JInt 3, f_properties =
        [(''photo'', JStr ''attachment://b''), (''photo__by'', JStr ''attachment://B'')]\<rparr>
     [] (Some ''by'') False []
   = (Inr ([''attachment://b''], [''attachment://a'', ''attachment://A''],
           \<lparr>f_id = JInt 3, f_properties =
              [(''photo'', JStr ''attachment://b''), (''photo__by'', JStr ''bob''),
               (''photo__by__by'', JStr ''bob'')]\<rparr>,
           [''photo__by'', ''photo__by__by'']),
      [EShow ''children'' (JInt 3)])"
  by (simp add: Let_def attachments_diff_def scenario_env_def no_result_def stored_def falsy_def
        diff_key_def attachment_ref_def suffix_set_def key_insert_def)

text \<open>The theorem at a stored photo \<^verbatim>\<open>attachment://a\<close>, unchanged and replaced.\<close>

theorem attachments_diff_identical_and_replaced_witness:
  "attachments_diff
     (scenario_env (stored \<lparr>f_id = JInt 3, f_properties = [(''photo'', JStr ''attachment://a'')]\<rparr>)
        no_result no_result no_result)
     ''children'' (JInt 3)
     \<lparr>f_id = JInt 3, f_properties = [(''photo'', JStr ''attachment://a'')]\<rparr> [] (Some ''by'') False []
   = (Inr ([], [], \<lparr>f_id = JInt 3, f_properties = [(''photo'', JStr ''attachment://a'')]\<rparr>, []),
      [EShow ''children'' (JInt 3)])
   \<and> (\<exists>newattachments oldattachments feat1 internal1.
        attachments_diff
          (scenario_env (stored \<lparr>f_id = JInt 3, f_properties = [(''photo'', JStr ''attachment://a'')]\<rparr>)
             no_result no_result no_result)
          ''children'' (JInt 3)
          \<lparr>f_id = JInt 3, f_properties = [(''photo'', JStr ''attachment://b'')]\<rparr> [] (Some ''by'') False []
        = (Inr (newattachments, oldattachments, feat1, internal1), [EShow ''children'' (JInt 3)])
        \<and> ''attachment://a'' \<in> set oldattachments \<and> ''attachment://b'' \<in> set newattachments)"
proof -
  let ?e = "scenario_env (stored \<lparr>f_id = JInt 3, f_properties = [(''photo'', JStr ''attachment://a'')]\<rparr>)
              no_result no_result no_result"
  have h: "r_feature (ds_show ?e [] ''children'' (JInt 3))
           = Some \<lparr>f_id = JInt 3, f_properties = [(''photo'', JStr ''attachment://a'')]\<rparr>"
    by (simp add: scenario_env_def stored_def no_result_def)
  show ?thesis
    using attachments_diff_identical_and_replaced[OF h,
            of "\<lparr>f_id = JInt 3, f_properties = [(''photo'', JStr ''attachment://a'')]\<rparr>"
               "[]" "Some ''by''" "''photo''" "''attachment://a''" "''attachment://b''"]
          attachments_diff_identical_and_replaced[OF h,
            of "\<lparr>f_id = JInt 3, f_properties = [(''photo'', JStr ''attachment://b'')]\<rparr>"
               "[]" "Some ''by''" "''photo''" "''attachment://a''" "''attachment://b''"]
    by (simp add: suffix_set_def)
qed

section \<open>A deleted record\<close>








text \<open>
  The new references of a delete are read from the payload whether or not they differ
  from the stored ones. When the payload repeats the stored reference and the delete is
  refused, the file removed is the one that the record, which is still there, names.
\<close>

lemma rel_record_step_failed_delete_same_reference:
  "rel_record_step
     (scenario_env
        (stored \<lparr>f_id = JInt 3, f_properties = [(''parent_id'', JInt 7), (''photo'', JStr ''attachment://x1'')]\<rparr>)
        no_result no_result (failed ''locked''))
     ''parents'' 7 None [] ''children'' (Some ''parent_id'')
     [(''id'', JInt 3), (''__status__'', JStr ''deleted''), (''children__parent_id'', JInt 7),
      (''children__photo'', JStr ''attachment://x1'')] []
   = (Inr ([[(''id'', JInt 3), (''__status__'', JStr ''deleted''), (''children__parent_id'', JInt 7),
             (''children__photo'', JStr ''attachment://x1''), (''error'', JStr ''locked''),
             (''error_details'', JOther ''{}'')]], True),
      [EShow ''children'' (JInt 3), EDestroy ''children'' (JInt 3), ERemove ''parents'' ''x1''])"
  by (simp add: Let_def rel_record_step_def scenario_env_def no_result_def stored_def failed_def
        attachments_diff_def diff_key_def rel_properties_def table_internal_fields_def
        rel_result_def details_or_empty_def cleanup_attachments_def lstrip_def suffix_set_def
        falsy_def attachment_ref_def)

section \<open>The loop over the records and the tables\<close>

lemma startswith_take: "startswith s p = (take (length p) s = p)"
  by (induction s p rule: startswith.induct) auto

lemma map_of_rel_properties: "map_of (rel_properties p r) f = map_of r (p @ f)"
proof (induction r)
  case Nil
  show ?case by (simp add: rel_properties_def)
next
  case (Cons kv r)
  obtain k v where kv: "kv = (k, v)" by (cases kv) auto
  show ?case
  proof (cases "startswith k p")
    case True
    then have "k = p @ drop (length p) k"
      by (metis append_take_drop_id startswith_take)
    then have "(drop (length p) k = f) = (k = p @ f)"
      by (metis same_append_eq)
    then show ?thesis
      using Cons True kv by (auto simp: rel_properties_def)
  next
    case False
    then have "k \<noteq> p @ f" by (auto simp: startswith_take)
    then show ?thesis
      using Cons False kv by (simp add: rel_properties_def)
  qed
qed

lemma py_eq_JStr: "py_eq v (JStr s) = (v = JStr s)"
  by (cases v) simp_all

lemma rel_record_step_new:
  assumes "map_of r ''__status__'' = Some (JStr ''new'')"
      and "rel_table @ ''__'' @ fk \<noteq> ''__status__''"
  shows "(let rel_record = AList.update (rel_table @ ''__'' @ fk) (JInt ident) r;
              entry = \<lparr>f_id = (case map_of rel_record ''id'' of None \<Rightarrow> JNull | Some v \<Rightarrow> v),
                       f_properties = rel_properties (rel_table @ ''__'') rel_record\<rparr>;
              tif = table_internal_fields (rel_table @ ''__'') internal_fields
          in rel_record_step e dataset ident sfx internal_fields rel_table (Some fk) r h
               = (Inr (rel_result rel_table tif rel_record (ds_create e h rel_table entry tif)),
                  h @ [ECreate rel_table entry tif])
             \<and> map_of (f_properties entry) fk = Some (JInt ident))"
proof -
  let ?r1 = "AList.update (rel_table @ ''__'' @ fk) (JInt ident) r"
  let ?entry = "\<lparr>f_id = (case map_of ?r1 ''id'' of None \<Rightarrow> JNull | Some v \<Rightarrow> v),
                 f_properties = rel_properties (rel_table @ ''__'') ?r1\<rparr>"
  let ?tif = "table_internal_fields (rel_table @ ''__'') internal_fields"
  have st: "map_of ?r1 ''__status__'' = Some (JStr ''new'')"
    using assms by (auto simp: update_conv')
  have fkv: "map_of ?r1 (rel_table @ ''__'' @ fk) = Some (JInt ident)"
    by (simp add: update_conv')
  have run: "rel_record_step e dataset ident sfx internal_fields rel_table (Some fk) r h
               = (Inr (rel_result rel_table ?tif ?r1 (ds_create e h rel_table ?entry ?tif)),
                  h @ [ECreate rel_table ?entry ?tif])"
    using assms st fkv by (simp add: rel_record_step_def Let_def)
  have "map_of (f_properties ?entry) fk = Some (JInt ident)"
    using fkv by (simp add: map_of_rel_properties)
  with run show ?thesis by (simp add: Let_def)
qed





lemma rel_result_length: "rel_result rel_table tif r res = (appended, err) \<Longrightarrow> length appended \<le> 1"
  by (auto simp: rel_result_def split: option.splits)

lemma rel_result_one:
  "r_error res \<noteq> None \<or> r_feature res \<noteq> None \<Longrightarrow>
   rel_result rel_table tif r res = (appended, err) \<Longrightarrow> length appended = 1"
  by (auto simp: rel_result_def split: option.splits)




lemma rel_record_step_length:
  "rel_record_step e dataset ident sfx internal_fields rel_table fk_field r h = (Inr (appended, err), h') \<Longrightarrow>
   length appended \<le> 1"
  by (auto simp: rel_record_step_def Let_def
         split: option.splits if_splits prod.splits sum.splits jvalue.splits
         dest: rel_result_length)



lemma rel_records_loop_acc:
  "rel_records_loop e dataset ident sfx internal_fields rel_table fk_field rs (recs, he) h
     = (Inr (recs', he'), h') \<Longrightarrow>
   (he \<longrightarrow> he') \<and> set recs \<subseteq> set recs'"
proof (induction rs arbitrary: recs he h)
  case Nil
  then show ?case by simp
next
  case (Cons r rs)
  obtain o1 h1 where st: "rel_record_step e dataset ident sfx internal_fields rel_table fk_field r h = (o1, h1)"
    by (cases "rel_record_step e dataset ident sfx internal_fields rel_table fk_field r h") auto
  show ?case
  proof (cases o1)
    case (Inl y)
    then show ?thesis using Cons.prems st by simp
  next
    case (Inr p)
    obtain app err where p: "p = (app, err)" by (cases p) auto
    have "rel_records_loop e dataset ident sfx internal_fields rel_table fk_field rs
            (recs @ app, he \<or> err) h1 = (Inr (recs', he'), h')"
      using Cons.prems st Inr p by simp
    from Cons.IH[OF this] show ?thesis by auto
  qed
qed

lemma rel_record_step_reject:
  "\<not> py_eq (case map_of r ''__status__'' of None \<Rightarrow> JStr [] | Some s \<Rightarrow> s) (JStr ''new'') \<Longrightarrow>
   \<not> py_eq (case map_of r (rel_table @ ''__'' @ fk) of None \<Rightarrow> JNull | Some v \<Rightarrow> v) (JInt ident) \<Longrightarrow>
   rel_record_step e dataset ident sfx internal_fields rel_table (Some fk) r h
     = (Inr ([AList.update ''__error__'' (JStr ''FK validation failed'') r], True), h)"
  by (simp add: rel_record_step_def Let_def)

lemma rel_records_loop_reject:
  assumes "rel_records_loop e dataset ident sfx internal_fields rel_table (Some fk) rs (recs, he) h
             = (Inr (recs', he'), h')"
      and "r \<in> set rs"
      and "\<not> py_eq (case map_of r ''__status__'' of None \<Rightarrow> JStr [] | Some s \<Rightarrow> s) (JStr ''new'')"
      and "\<not> py_eq (case map_of r (rel_table @ ''__'' @ fk) of None \<Rightarrow> JNull | Some v \<Rightarrow> v) (JInt ident)"
  shows "he' \<and> AList.update ''__error__'' (JStr ''FK validation failed'') r \<in> set recs'"
  using assms(1,2)
proof (induction rs arbitrary: recs he h)
  case Nil
  then show ?case by simp
next
  case (Cons r0 rs)
  show ?case
  proof (cases "r0 = r")
    case True
    have "rel_records_loop e dataset ident sfx internal_fields rel_table (Some fk) rs
            (recs @ [AList.update ''__error__'' (JStr ''FK validation failed'') r], True) h
          = (Inr (recs', he'), h')"
      using Cons.prems(1) True rel_record_step_reject[OF assms(3,4), of e dataset sfx internal_fields h]
      by simp
    from rel_records_loop_acc[OF this] show ?thesis by auto
  next
    case False
    then have rin: "r \<in> set rs" using Cons.prems(2) by simp
    obtain o1 h1 where st: "rel_record_step e dataset ident sfx internal_fields rel_table (Some fk) r0 h = (o1, h1)"
      by (cases "rel_record_step e dataset ident sfx internal_fields rel_table (Some fk) r0 h") auto
    show ?thesis
    proof (cases o1)
      case (Inl y)
      then show ?thesis using Cons.prems(1) st by simp
    next
      case (Inr p)
      obtain app err where p: "p = (app, err)" by (cases p) auto
      have "rel_records_loop e dataset ident sfx internal_fields rel_table (Some fk) rs
              (recs @ app, he \<or> err) h1 = (Inr (recs', he'), h')"
        using Cons.prems(1) st Inr p by simp
      from Cons.IH[OF this rin] show ?thesis .
    qed
  qed
qed



lemma rel_tables_loop_acc:
  "rel_tables_loop e dataset ident sfx internal_fields pl (ret, he) h = (Inr (ret', he'), h') \<Longrightarrow>
   (he \<longrightarrow> he') \<and> (\<forall>t. t \<notin> fst ` set pl \<longrightarrow> map_of ret' t = map_of ret t)"
proof (induction pl arbitrary: ret he h)
  case Nil
  then show ?case by simp
next
  case (Cons tr pl)
  obtain rel_table rd where tr: "tr = (rel_table, rd)" by (cases tr) auto
  let ?rs = "case rd_records rd of None \<Rightarrow> [] | Some rs \<Rightarrow> rs"
  obtain o1 h1 where lp: "rel_records_loop e dataset ident sfx internal_fields rel_table (rd_fk rd)
                            ?rs ([], he) h = (o1, h1)"
    by (cases "rel_records_loop e dataset ident sfx internal_fields rel_table (rd_fk rd) ?rs ([], he) h") auto
  show ?case
  proof (cases o1)
    case (Inl x)
    then show ?thesis using Cons.prems lp tr by simp
  next
    case (Inr p)
    obtain recs he1 where p: "p = (recs, he1)" by (cases p) auto
    have rest: "rel_tables_loop e dataset ident sfx internal_fields pl
            (AList.update rel_table (rd_fk rd, recs) ret, he1) h1 = (Inr (ret', he'), h')"
      using Cons.prems lp tr Inr p by simp
    have m: "he \<longrightarrow> he1"
      using rel_records_loop_acc[OF lp[unfolded Inr p]] by simp
    from Cons.IH[OF rest] m show ?thesis
      by (auto simp: tr update_conv')
  qed
qed

lemma rel_tables_loop_reject:
  assumes "rel_tables_loop e dataset ident sfx internal_fields pl (ret, he) h = (Inr (ret', he'), h')"
      and "distinct (map fst pl)"
      and "(t, rd) \<in> set pl" and "rd_fk rd = Some fk" and "rd_records rd = Some rs" and "r \<in> set rs"
      and "\<not> py_eq (case map_of r ''__status__'' of None \<Rightarrow> JStr [] | Some s \<Rightarrow> s) (JStr ''new'')"
      and "\<not> py_eq (case map_of r (t @ ''__'' @ fk) of None \<Rightarrow> JNull | Some v \<Rightarrow> v) (JInt ident)"
  shows "he' \<and> (\<exists>recs. map_of ret' t = Some (Some fk, recs)
                \<and> AList.update ''__error__'' (JStr ''FK validation failed'') r \<in> set recs)"
  using assms(1,2,3)
proof (induction pl arbitrary: ret he h)
  case Nil
  then show ?case by simp
next
  case (Cons tr pl)
  obtain rel_table rd0 where tr: "tr = (rel_table, rd0)" by (cases tr) auto
  let ?rs = "case rd_records rd0 of None \<Rightarrow> [] | Some rs \<Rightarrow> rs"
  obtain o1 h1 where lp: "rel_records_loop e dataset ident sfx internal_fields rel_table (rd_fk rd0)
                            ?rs ([], he) h = (o1, h1)"
    by (cases "rel_records_loop e dataset ident sfx internal_fields rel_table (rd_fk rd0) ?rs ([], he) h") auto
  show ?case
  proof (cases o1)
    case (Inl x)
    then show ?thesis using Cons.prems(1) lp tr by simp
  next
    case (Inr p)
    obtain recs he1 where p: "p = (recs, he1)" by (cases p) auto
    have rest: "rel_tables_loop e dataset ident sfx internal_fields pl
            (AList.update rel_table (rd_fk rd0, recs) ret, he1) h1 = (Inr (ret', he'), h')"
      using Cons.prems(1) lp tr Inr p by simp
    have dist: "distinct (map fst pl)" and notin: "rel_table \<notin> fst ` set pl"
      using Cons.prems(2) tr by auto
    show ?thesis
    proof (cases "tr = (t, rd)")
      case True
      then have eq: "rel_table = t" "rd0 = rd" using tr by simp_all
      have lp': "rel_records_loop e dataset ident sfx internal_fields t (Some fk) rs ([], he) h
                   = (Inr (recs, he1), h1)"
        using lp Inr p eq assms(4,5) by simp
      have rej: "he1 \<and> AList.update ''__error__'' (JStr ''FK validation failed'') r \<in> set recs"
        using rel_records_loop_reject[OF lp' assms(6,7,8)] .
      have "map_of ret' t = map_of (AList.update rel_table (rd_fk rd0, recs) ret) t"
        using rel_tables_loop_acc[OF rest] notin eq by simp
      then have "map_of ret' t = Some (Some fk, recs)"
        using eq assms(4) by (simp add: update_conv')
      moreover have "he'" using rel_tables_loop_acc[OF rest] rej by simp
      ultimately show ?thesis using rej by simp
    next
      case False
      then have "(t, rd) \<in> set pl" using Cons.prems(3) by simp
      from Cons.IH[OF rest dist this] show ?thesis .
    qed
  qed
qed

lemma relations_post_no_files:
  "relations_post e dataset ident sfx (Some pl) [] h = (Inr (ret, ok), h') \<Longrightarrow>
   \<exists>he. ok = (\<not> he)
      \<and> rel_tables_loop e dataset ident sfx [] pl ([], False) (h @ [EIsEditable dataset ident])
          = (Inr (ret, he), h')"
  by (auto simp: relations_post_def split: if_splits prod.splits sum.splits)

section \<open>The foreign key of a relation record\<close>

text \<open>
  C6. A record with \<^verbatim>\<open>__status__ == "new"\<close>: the foreign key property is set to the
  parent id first, the check that follows passes, and the record goes to the Record
  Store's create with the parent id as its foreign key (the foreign key property is
  taken to be another key than \<^verbatim>\<open>__status__\<close>). A record with any other status whose
  foreign key property is not equal to the parent id: the record is appended with
  \<^verbatim>\<open>__error__\<close> set and otherwise as it came, \<^verbatim>\<open>haserrors\<close> is set, and the
  history is as before, so nothing was sent to the Record Store; in the response of a
  request that holds such a record \<^verbatim>\<open>success\<close> is false and the record is among the
  records of its table.
\<close>

theorem relation_record_foreign_key:
  "(map_of r ''__status__'' = Some (JStr ''new'') \<and> rel_table @ ''__'' @ fk \<noteq> ''__status__''
      \<longrightarrow> (let rel_record = AList.update (rel_table @ ''__'' @ fk) (JInt ident) r;
               entry = \<lparr>f_id = (case map_of rel_record ''id'' of None \<Rightarrow> JNull | Some v \<Rightarrow> v),
                        f_properties = rel_properties (rel_table @ ''__'') rel_record\<rparr>;
               tif = table_internal_fields (rel_table @ ''__'') internal_fields
           in rel_record_step e dataset ident sfx internal_fields rel_table (Some fk) r h
                = (Inr (rel_result rel_table tif rel_record (ds_create e h rel_table entry tif)),
                   h @ [ECreate rel_table entry tif])
              \<and> map_of (f_properties entry) fk = Some (JInt ident)))
   \<and> (\<not> py_eq (case map_of r ''__status__'' of None \<Rightarrow> JStr [] | Some s \<Rightarrow> s) (JStr ''new'')
      \<and> \<not> py_eq (case map_of r (rel_table @ ''__'' @ fk) of None \<Rightarrow> JNull | Some v \<Rightarrow> v) (JInt ident)
      \<longrightarrow> rel_record_step e dataset ident sfx internal_fields rel_table (Some fk) r h
            = (Inr ([AList.update ''__error__'' (JStr ''FK validation failed'') r], True), h)
        \<and> (\<forall>pl rd rs ret ok h0 h'.
              relations_post e dataset ident sfx (Some pl) [] h0 = (Inr (ret, ok), h')
              \<and> distinct (map fst pl) \<and> (rel_table, rd) \<in> set pl
              \<and> rd_fk rd = Some fk \<and> rd_records rd = Some rs \<and> r \<in> set rs
              \<longrightarrow> \<not> ok
                \<and> (\<exists>recs. map_of ret rel_table = Some (Some fk, recs)
                      \<and> AList.update ''__error__'' (JStr ''FK validation failed'') r \<in> set recs)))"
proof (intro conjI impI allI)
  assume "map_of r ''__status__'' = Some (JStr ''new'') \<and> rel_table @ ''__'' @ fk \<noteq> ''__status__''"
  then show "let rel_record = AList.update (rel_table @ ''__'' @ fk) (JInt ident) r;
               entry = \<lparr>f_id = (case map_of rel_record ''id'' of None \<Rightarrow> JNull | Some v \<Rightarrow> v),
                        f_properties = rel_properties (rel_table @ ''__'') rel_record\<rparr>;
               tif = table_internal_fields (rel_table @ ''__'') internal_fields
           in rel_record_step e dataset ident sfx internal_fields rel_table (Some fk) r h
                = (Inr (rel_result rel_table tif rel_record (ds_create e h rel_table entry tif)),
                   h @ [ECreate rel_table entry tif])
              \<and> map_of (f_properties entry) fk = Some (JInt ident)"
    using rel_record_step_new[of r rel_table fk ident internal_fields e dataset sfx h] by blast
next
  assume a: "\<not> py_eq (case map_of r ''__status__'' of None \<Rightarrow> JStr [] | Some s \<Rightarrow> s) (JStr ''new'')
      \<and> \<not> py_eq (case map_of r (rel_table @ ''__'' @ fk) of None \<Rightarrow> JNull | Some v \<Rightarrow> v) (JInt ident)"
  then show "rel_record_step e dataset ident sfx internal_fields rel_table (Some fk) r h
            = (Inr ([AList.update ''__error__'' (JStr ''FK validation failed'') r], True), h)"
    using rel_record_step_reject[of r rel_table fk ident e dataset sfx internal_fields h] by simp
next
  fix pl rd rs ret ok h0 h'
  assume a: "\<not> py_eq (case map_of r ''__status__'' of None \<Rightarrow> JStr [] | Some s \<Rightarrow> s) (JStr ''new'')
      \<and> \<not> py_eq (case map_of r (rel_table @ ''__'' @ fk) of None \<Rightarrow> JNull | Some v \<Rightarrow> v) (JInt ident)"
  assume b: "relations_post e dataset ident sfx (Some pl) [] h0 = (Inr (ret, ok), h')
              \<and> distinct (map fst pl) \<and> (rel_table, rd) \<in> set pl
              \<and> rd_fk rd = Some fk \<and> rd_records rd = Some rs \<and> r \<in> set rs"
  have post: "relations_post e dataset ident sfx (Some pl) [] h0 = (Inr (ret, ok), h')"
    using b by simp
  from relations_post_no_files[OF post] obtain he where
    ok: "ok = (\<not> he)" and
    lp: "rel_tables_loop e dataset ident sfx [] pl ([], False) (h0 @ [EIsEditable dataset ident])
          = (Inr (ret, he), h')"
    by auto
  have b1: "distinct (map fst pl)" and b2: "(rel_table, rd) \<in> set pl"
    and b3: "rd_fk rd = Some fk" and b4: "rd_records rd = Some rs" and b5: "r \<in> set rs"
    using b by simp_all
  have a1: "\<not> py_eq (case map_of r ''__status__'' of None \<Rightarrow> JStr [] | Some s \<Rightarrow> s) (JStr ''new'')"
    and a2: "\<not> py_eq (case map_of r (rel_table @ ''__'' @ fk) of None \<Rightarrow> JNull | Some v \<Rightarrow> v) (JInt ident)"
    using a by simp_all
  have "he \<and> (\<exists>recs. map_of ret rel_table = Some (Some fk, recs)
                \<and> AList.update ''__error__'' (JStr ''FK validation failed'') r \<in> set recs)"
    using rel_tables_loop_reject[OF lp b1 b2 b3 b4 b5 a1 a2] .
  then show "\<not> ok" and "\<exists>recs. map_of ret rel_table = Some (Some fk, recs)
                \<and> AList.update ''__error__'' (JStr ''FK validation failed'') r \<in> set recs"
    using ok by simp_all
qed

text \<open>
  The theorem at parent 7: a new record that claims parent 99 is created under parent 7,
  a changed record that claims parent 99 is rejected, and the request that holds it
  answers with \<^verbatim>\<open>success\<close> false.
\<close>

theorem relation_record_foreign_key_witness:
  "rel_record_step
     (scenario_env no_result
        (stored \<lparr>f_id = JInt 1, f_properties = [(''parent_id'', JInt 7), (''name'', JStr ''a'')]\<rparr>)
        no_result no_result)
     ''parents'' 7 None [] ''children'' (Some ''parent_id'')
     [(''__status__'', JStr ''new''), (''children__parent_id'', JInt 99), (''children__name'', JStr ''a'')] []
   = (Inr ([[(''children__parent_id'', JInt 7), (''children__name'', JStr ''a''), (''id'', JInt 1)]], False),
      [ECreate ''children'' \<lparr>f_id = JNull, f_properties = [(''parent_id'', JInt 7), (''name'', JStr ''a'')]\<rparr> []])
   \<and> rel_record_step
        (scenario_env no_result
           (stored \<lparr>f_id = JInt 1, f_properties = [(''parent_id'', JInt 7), (''name'', JStr ''a'')]\<rparr>)
           no_result no_result)
        ''parents'' 7 None [] ''children'' (Some ''parent_id'')
        [(''id'', JInt 3), (''__status__'', JStr ''changed''), (''children__parent_id'', JInt 99)] []
      = (Inr ([[(''id'', JInt 3), (''__status__'', JStr ''changed''), (''children__parent_id'', JInt 99),
                (''__error__'', JStr ''FK validation failed'')]], True), [])
   \<and> relations_post
        (scenario_env no_result
           (stored \<lparr>f_id = JInt 1, f_properties = [(''parent_id'', JInt 7), (''name'', JStr ''a'')]\<rparr>)
           no_result no_result)
        ''parents'' 7 None
        (Some [(''children'', \<lparr>rd_fk = Some ''parent_id'', rd_records = Some
            [[(''id'', JInt 3), (''__status__'', JStr ''changed''), (''children__parent_id'', JInt 99)]]\<rparr>)])
        [] []
      = (Inr ([(''children'', Some ''parent_id'',
                [[(''id'', JInt 3), (''__status__'', JStr ''changed''), (''children__parent_id'', JInt 99),
                  (''__error__'', JStr ''FK validation failed'')]])], False),
         [EIsEditable ''parents'' 7])
   \<and> (\<exists>recs. map_of [(''children'', Some ''parent_id'',
                [[(''id'', JInt 3), (''__status__'', JStr ''changed''), (''children__parent_id'', JInt 99),
                  (''__error__'', JStr ''FK validation failed'')]])] ''children'' = Some (Some ''parent_id'', recs)
          \<and> [(''id'', JInt 3), (''__status__'', JStr ''changed''), (''children__parent_id'', JInt 99),
              (''__error__'', JStr ''FK validation failed'')] \<in> set recs)"
proof -
  let ?e = "scenario_env no_result
             (stored \<lparr>f_id = JInt 1, f_properties = [(''parent_id'', JInt 7), (''name'', JStr ''a'')]\<rparr>)
             no_result no_result"
  let ?rn = "[(''__status__'', JStr ''new''), (''children__parent_id'', JInt 99), (''children__name'', JStr ''a'')]"
  let ?rc = "[(''id'', JInt 3), (''__status__'', JStr ''changed''), (''children__parent_id'', JInt 99)]"
  let ?rd = "\<lparr>rd_fk = Some ''parent_id'', rd_records = Some [?rc]\<rparr>"
  let ?pl = "[(''children'', ?rd)]"
  let ?ret = "[(''children'', Some ''parent_id'',
                [[(''id'', JInt 3), (''__status__'', JStr ''changed''), (''children__parent_id'', JInt 99),
                  (''__error__'', JStr ''FK validation failed'')]])]"
  have post: "relations_post ?e ''parents'' 7 None (Some ?pl) [] [] = (Inr (?ret, False), [EIsEditable ''parents'' 7])"
    by (simp add: Let_def relations_post_def rel_record_step_def scenario_env_def)
  have premn: "map_of ?rn ''__status__'' = Some (JStr ''new'') \<and> ''children'' @ ''__'' @ ''parent_id'' \<noteq> ''__status__''"
    by simp
  have premc: "\<not> py_eq (case map_of ?rc ''__status__'' of None \<Rightarrow> JStr [] | Some s \<Rightarrow> s) (JStr ''new'')
      \<and> \<not> py_eq (case map_of ?rc (''children'' @ ''__'' @ ''parent_id'') of None \<Rightarrow> JNull | Some v \<Rightarrow> v) (JInt 7)"
    by simp
  note tn = relation_record_foreign_key[of ?rn "''children''" "''parent_id''" 7 "[]" ?e "''parents''" None "[]",
              THEN conjunct1, THEN mp, OF premn]
  note tc = relation_record_foreign_key[of ?rc "''children''" "''parent_id''" 7 "[]" ?e "''parents''" None "[]",
              THEN conjunct2, THEN mp, OF premc]
  have new: "rel_record_step ?e ''parents'' 7 None [] ''children'' (Some ''parent_id'') ?rn []
   = (Inr ([[(''children__parent_id'', JInt 7), (''children__name'', JStr ''a''), (''id'', JInt 1)]], False),
      [ECreate ''children'' \<lparr>f_id = JNull, f_properties = [(''parent_id'', JInt 7), (''name'', JStr ''a'')]\<rparr> []])"
    using tn
    by (simp add: Let_def rel_result_def rel_properties_def table_internal_fields_def
          scenario_env_def stored_def no_result_def)
  have rej: "rel_record_step ?e ''parents'' 7 None [] ''children'' (Some ''parent_id'') ?rc []
      = (Inr ([[(''id'', JInt 3), (''__status__'', JStr ''changed''), (''children__parent_id'', JInt 99),
                (''__error__'', JStr ''FK validation failed'')]], True), [])"
    using tc[THEN conjunct1] by simp
  have prem: "relations_post ?e ''parents'' 7 None (Some ?pl) [] [] = (Inr (?ret, False), [EIsEditable ''parents'' 7])
              \<and> distinct (map fst ?pl) \<and> (''children'', ?rd) \<in> set ?pl
              \<and> rd_fk ?rd = Some ''parent_id'' \<and> rd_records ?rd = Some [?rc] \<and> ?rc \<in> set [?rc]"
    using post by simp
  have mem: "\<not> False \<and> (\<exists>recs. map_of ?ret ''children'' = Some (Some ''parent_id'', recs)
          \<and> AList.update ''__error__'' (JStr ''FK validation failed'') ?rc \<in> set recs)"
    using tc[THEN conjunct2, THEN spec, THEN spec, THEN spec, THEN spec, THEN spec, THEN spec, THEN spec,
             THEN mp, OF prem] .
  show ?thesis
    using new rej post mem by simp
qed

section \<open>The tables of a batch\<close>




















end
